theory Spec2Isabelle
  imports Complex_Main "HOL-Library.Char_ord" "HOL-Library.List_Lexorder" "HOL-Library.AList"
begin

section \<open>MTAPI: the refresh-and-cache engine of \<^verbatim>\<open>mtapi/mtapi.py\<close>\<close>

text \<open>
  The development embeds class \<^verbatim>\<open>Mtapi\<close> and its inner class \<^verbatim>\<open>_Station\<close>.
  Conventions of the embedding:
  \<^item> Python strings are \<open>string\<close> (ASCII); a one-character string such as the
    direction \<^verbatim>\<open>trip.direction[0]\<close> is a \<open>char\<close>.
  \<^item> A \<^verbatim>\<open>datetime\<close> is an \<open>int\<close>: microseconds on one time axis (the resolution of
    \<^verbatim>\<open>datetime\<close>). \<^verbatim>\<open>timedelta(minutes = k)\<close> is \<open>60000000 * k\<close>, and
    \<^verbatim>\<open>age.total_seconds() > e\<close> is \<open>age > 1000000 * e\<close>. Python computes
    \<^verbatim>\<open>total_seconds()\<close> and \<^verbatim>\<open>timestamp()\<close> as floats; the integer reading is the same
    while the clock and \<^verbatim>\<open>expires_seconds\<close> stay below \<open>2 ^ 33\<close> seconds in absolute
    value, and the embedding is about that range. The range limits of \<^verbatim>\<open>datetime\<close> and
    \<^verbatim>\<open>timedelta\<close> are not modelled.
  \<^item> An exception is a value of type \<open>error\<close>; a function that may raise returns
    \<open>error + 'a\<close>, and a method that may raise after it has changed the object returns
    the changed object together with the exception.
  \<^item> A dict that the code iterates is a key/value list in iteration order, read with
    \<open>map_of\<close> and written with \<open>AList.update\<close>; a dict that is only looked up is a map.
    A Python set that the code iterates is a list without an order of its own: the theorems
    hold for every order.
  \<^item> Leading underscores of private names are dropped; the attributes of \<^verbatim>\<open>Mtapi\<close> carry
    the prefix \<open>m_\<close> where a station attribute has the same name.
  \<^item> The feed decoding library (\<^verbatim>\<open>mtaproto\<close>), the network and the timer helper are not
    part of the file: what they return is an input of the model (\<open>env\<close>).
\<close>

subsection \<open>Exceptions and loops that may raise\<close>

datatype error =
  KeyError | IndexError | UnboundLocalError | TypeError | ValueError | AttributeError

text \<open>A \<^verbatim>\<open>for\<close> loop whose body may raise: the first exception ends the loop.\<close>

fun for_each :: "('a \<Rightarrow> 's \<Rightarrow> error + 's) \<Rightarrow> 'a list \<Rightarrow> 's \<Rightarrow> error + 's" where
  "for_each body [] s = Inr s"
| "for_each body (x # xs) s =
     (case body x s of Inl e \<Rightarrow> Inl e | Inr s' \<Rightarrow> for_each body xs s')"

text \<open>A list comprehension whose element expression may raise.\<close>

fun comprehend :: "('a \<Rightarrow> error + 'b) \<Rightarrow> 'a list \<Rightarrow> error + 'b list" where
  "comprehend f [] = Inr []"
| "comprehend f (x # xs) =
     (case f x of Inl e \<Rightarrow> Inl e
      | Inr y \<Rightarrow> (case comprehend f xs of Inl e \<Rightarrow> Inl e | Inr ys \<Rightarrow> Inr (y # ys)))"

subsection \<open>Python built-ins used by the code\<close>

text \<open>\<^verbatim>\<open>xs[:n]\<close>: a negative bound counts from the end.\<close>

definition slice_to :: "int \<Rightarrow> 'a list \<Rightarrow> 'a list" where
  "slice_to n xs = (if 0 \<le> n then take (nat n) xs else take (length xs - nat (- n)) xs)"

text \<open>\<^verbatim>\<open>s.rstrip(cs)\<close>: every trailing character that occurs in \<open>cs\<close> is removed.\<close>

definition rstrip :: "string \<Rightarrow> string \<Rightarrow> string" where
  "rstrip cs s = rev (dropWhile (\<lambda>c. c \<in> set cs) (rev s))"

text \<open>\<^verbatim>\<open>s.upper()\<close> on ASCII text.\<close>

definition to_upper :: "char \<Rightarrow> char" where
  "to_upper c =
     (case map_of (zip ''abcdefghijklmnopqrstuvwxyz'' ''ABCDEFGHIJKLMNOPQRSTUVWXYZ'') c of
        Some u \<Rightarrow> u
      | None \<Rightarrow> c)"

definition upper :: "string \<Rightarrow> string" where
  "upper s = map to_upper s"

subsection \<open>Data\<close>

text \<open>A value read by \<^verbatim>\<open>json.load\<close>.\<close>

datatype jval =
    JNull
  | JBool bool
  | JNum real
  | JStr string
  | JArr "jval list"
  | JObj "(string \<times> jval) list"

text \<open>The dicts \<^verbatim>\<open>{'route': ..., 'time': ...}\<close> and \<^verbatim>\<open>{'type': ..., 'header_text': ...}\<close>.\<close>

record train =
  route :: string
  time :: int

record alert =
  alert_type :: string
  header_text :: string

text \<open>
  \<^verbatim>\<open>_Station\<close>. The dict \<^verbatim>\<open>trains\<close> has the two keys \<^verbatim>\<open>'N'\<close> and \<^verbatim>\<open>'S'\<close> from
  \<^verbatim>\<open>clear_train_data\<close> on (the constructor calls it), so it is the two fields
  \<open>trains_N\<close> and \<open>trains_S\<close>; any other key raises \<^verbatim>\<open>KeyError\<close> in \<open>add_train\<close>.
\<close>

record station =
  json :: "string \<rightharpoonup> jval"
  trains_N :: "train list"
  trains_S :: "train list"
  routes :: "string set"
  last_update :: "int option"
  alerts :: "alert list"

text \<open>What the decoding library hands over (\<^verbatim>\<open>FeedResponse\<close>, \<^verbatim>\<open>Trip\<close>, \<^verbatim>\<open>TripStop\<close>).\<close>

record trip_stop =
  ts_time :: int
  ts_stop_id :: string

record period =
  period_start :: int
  period_end :: int

record translation =
  language :: string
  tr_text :: string

text \<open>An informed entity: \<open>None\<close> where \<^verbatim>\<open>HasField\<close> is false.\<close>

record informed =
  inf_stop_id :: "string option"
  inf_route_id :: "string option"

record entity =
  is_valid :: bool
  direction :: string
  route_id :: string
  stop_time_update :: "trip_stop list"
  active_period :: "period list"
  header_translation :: "translation list"
  informed_entity :: "informed list"

record feed =
  timestamp :: int
  entities :: "entity list"

text \<open>
  The world during one call of \<^verbatim>\<open>_update\<close>: the clock it reads, and what
  \<^verbatim>\<open>_load_mta_feed\<close> returns for each URL (\<open>None\<close> for \<^verbatim>\<open>False\<close>).
\<close>

record env =
  now :: int
  load_mta_feed :: "string \<Rightarrow> feed option"

text \<open>
  \<^verbatim>\<open>Mtapi\<close>. \<open>m_routes\<close> is the \<^verbatim>\<open>defaultdict(set)\<close> that \<^verbatim>\<open>_update\<close> publishes (the
  constructor runs \<^verbatim>\<open>_update\<close> before any query). \<open>updates\<close> is a ghost field: the
  number of calls of \<^verbatim>\<open>_update\<close> so far.
\<close>

record mtapi =
  MAX_TRAINS :: int
  MAX_MINUTES :: int
  EXPIRES_SECONDS :: int
  THREADED :: bool
  GET_SERVICE_ALERTS :: bool
  m_stations :: "(string \<times> station) list"
  m_stops_to_stations :: "string \<rightharpoonup> string"
  m_routes :: "(string \<times> string list) list"
  m_last_update :: int
  updates :: nat

subsection \<open>\<^verbatim>\<open>_Station\<close>\<close>

definition new_station :: "(string \<rightharpoonup> jval) \<Rightarrow> station" where
  "new_station j =
     \<lparr>json = j, trains_N = [], trains_S = [], routes = {}, last_update = None, alerts = []\<rparr>"

definition getitem :: "station \<Rightarrow> string \<Rightarrow> error + jval" where
  "getitem s key = (case json s key of None \<Rightarrow> Inl KeyError | Some v \<Rightarrow> Inr v)"

definition add_train :: "string \<Rightarrow> char \<Rightarrow> int \<Rightarrow> int \<Rightarrow> station \<Rightarrow> error + station" where
  "add_train rid dir train_time feed_time s =
     (let s1 = s\<lparr>routes := insert rid (routes s)\<rparr>;
          t = \<lparr>route = rid, time = train_time\<rparr>
      in if dir = CHR ''N'' then
           Inr (s1\<lparr>trains_N := trains_N s1 @ [t], last_update := Some feed_time\<rparr>)
         else if dir = CHR ''S'' then
           Inr (s1\<lparr>trains_S := trains_S s1 @ [t], last_update := Some feed_time\<rparr>)
         else Inl KeyError)"

definition add_alert :: "string \<Rightarrow> string \<Rightarrow> station \<Rightarrow> station" where
  "add_alert ty txt s =
     (if \<not> list_ex (\<lambda>a. header_text a = txt) (alerts s)
      then s\<lparr>alerts := alerts s @ [\<lparr>alert_type = ty, header_text = txt\<rparr>]\<rparr>
      else s)"

definition clear_train_data :: "station \<Rightarrow> station" where
  "clear_train_data s =
     s\<lparr>trains_N := [], trains_S := [], routes := {}, last_update := None, alerts := []\<rparr>"

definition sort_trains :: "int \<Rightarrow> station \<Rightarrow> station" where
  "sort_trains max_trains s =
     (let s1 = s\<lparr>trains_S := slice_to max_trains (sort_key time (trains_S s))\<rparr>
      in s1\<lparr>trains_N := slice_to max_trains (sort_key time (trains_N s1))\<rparr>)"

text \<open>The values of a serialized station: the five derived ones and the catalog's.\<close>

datatype pyval =
    Alerts "alert list"
  | Trains "train list"
  | Routes "string set"
  | LastUpdate "int option"
  | Static jval

definition derived :: "station \<Rightarrow> (string \<rightharpoonup> pyval)" where
  "derived s =
     [''service_alerts'' \<mapsto> Alerts (alerts s),
      ''N'' \<mapsto> Trains (trains_N s),
      ''S'' \<mapsto> Trains (trains_S s),
      ''routes'' \<mapsto> Routes (routes s),
      ''last_update'' \<mapsto> LastUpdate (last_update s)]"

definition serialize :: "station \<Rightarrow> (string \<rightharpoonup> pyval)" where
  "serialize s = derived s ++ (\<lambda>k. map_option Static (json s k))"

subsection \<open>Helpers of \<^verbatim>\<open>Mtapi\<close>\<close>

definition FEED_URLS :: "string list" where
  "FEED_URLS =
     [''https://api-endpoint.mta.info/Dataservice/mtagtfsfeeds/nyct%2Fgtfs'',
      ''https://api-endpoint.mta.info/Dataservice/mtagtfsfeeds/nyct%2Fgtfs-l'',
      ''https://api-endpoint.mta.info/Dataservice/mtagtfsfeeds/nyct%2Fgtfs-nqrw'',
      ''https://api-endpoint.mta.info/Dataservice/mtagtfsfeeds/nyct%2Fgtfs-bdfm'',
      ''https://api-endpoint.mta.info/Dataservice/mtagtfsfeeds/nyct%2Fgtfs-ace'',
      ''https://api-endpoint.mta.info/Dataservice/mtagtfsfeeds/nyct%2Fgtfs-si'',
      ''https://api-endpoint.mta.info/Dataservice/mtagtfsfeeds/nyct%2Fgtfs-jz'',
      ''https://api-endpoint.mta.info/Dataservice/mtagtfsfeeds/nyct%2Fgtfs-g'']"

definition SERVICE_ALERT_URL :: string where
  "SERVICE_ALERT_URL =
     ''https://api-endpoint.mta.info/Dataservice/mtagtfsfeeds/camsys%2Fsubway-alerts''"

text \<open>
  \<^verbatim>\<open>stations[station_id]['stops'].keys()\<close> in \<^verbatim>\<open>_build_stops_index\<close>: only a dict has
  \<^verbatim>\<open>keys\<close>.
\<close>

definition stops_keys :: "station \<Rightarrow> error + string list" where
  "stops_keys s =
     (case getitem s ''stops'' of
        Inl e \<Rightarrow> Inl e
      | Inr (JObj kvs) \<Rightarrow> Inr (map fst kvs)
      | Inr _ \<Rightarrow> Inl AttributeError)"

text \<open>
  \<^verbatim>\<open>for stop in station_stops\<close>: a dict yields its keys, a list its elements, a string
  its characters; nothing else can be iterated.
\<close>

fun iterate :: "jval \<Rightarrow> error + jval list" where
  "iterate (JObj kvs) = Inr (map (\<lambda>kv. JStr (fst kv)) kvs)"
| "iterate (JArr xs) = Inr xs"
| "iterate (JStr cs) = Inr (map (\<lambda>c. JStr [c]) cs)"
| "iterate v = Inl TypeError"

fun index_stops :: "string \<Rightarrow> string list \<Rightarrow> (string \<rightharpoonup> string) \<Rightarrow> (string \<rightharpoonup> string)" where
  "index_stops station_id [] stops = stops"
| "index_stops station_id (stop_id # rest) stops =
     index_stops station_id rest (stops(stop_id \<mapsto> station_id))"

definition build_stops_index :: "(string \<times> station) list \<Rightarrow> error + (string \<rightharpoonup> string)" where
  "build_stops_index stations =
     for_each
       (\<lambda>(station_id, s) stops.
          case stops_keys s of
            Inl e \<Rightarrow> Inl e
          | Inr ks \<Rightarrow> Inr (index_stops station_id ks stops))
       stations Map.empty"

definition is_alert_currently_active :: "entity \<Rightarrow> int \<Rightarrow> bool" where
  "is_alert_currently_active e current_timestamp =
     list_ex
       (\<lambda>p. period_start p \<le> current_timestamp \<and>
            (period_end p = 0 \<or> period_end p \<ge> current_timestamp))
       (active_period e)"

text \<open>
  The loop of \<^verbatim>\<open>_get_alert_text\<close>. The local \<^verbatim>\<open>english_text\<close> is unbound before the first
  iteration (\<open>None\<close>), and every iteration starts by binding it to \<^verbatim>\<open>None\<close>
  (\<open>Some None\<close>).
\<close>

fun get_alert_text_loop ::
  "translation list \<Rightarrow> string \<Rightarrow> string option option \<Rightarrow> error + string option" where
  "get_alert_text_loop [] lang english_text =
     (case english_text of None \<Rightarrow> Inl UnboundLocalError | Some v \<Rightarrow> Inr v)"
| "get_alert_text_loop (t # ts) lang english_text =
     (if language t = lang then Inr (Some (tr_text t))
      else if language t = ''en'' then get_alert_text_loop ts lang (Some (Some (tr_text t)))
      else get_alert_text_loop ts lang (Some None))"

definition get_alert_text :: "entity \<Rightarrow> string \<Rightarrow> error + string option" where
  "get_alert_text e lang = get_alert_text_loop (header_translation e) lang None"

definition get_station_routes :: "station \<Rightarrow> string set" where
  "get_station_routes s = set (map route (trains_N s @ trains_S s))"

text \<open>
  \<^verbatim>\<open>_alert_applies_to_stop\<close>. \<^verbatim>\<open>stop in [alert_stop, alert_stop_base]\<close> compares with
  \<^verbatim>\<open>==\<close>: a value that is not a string equals neither.
\<close>

definition alert_applies_to_stop :: "informed \<Rightarrow> jval \<Rightarrow> error + bool" where
  "alert_applies_to_stop i station_stops =
     (case inf_stop_id i of
        None \<Rightarrow> Inr False
      | Some alert_stop \<Rightarrow>
          (let alert_stop_base = rstrip ''NS'' alert_stop
           in case iterate station_stops of
                Inl e \<Rightarrow> Inl e
              | Inr stops \<Rightarrow>
                  Inr (list_ex (\<lambda>stop. stop \<in> set [JStr alert_stop, JStr alert_stop_base])
                         stops)))"

subsection \<open>\<^verbatim>\<open>_update\<close>\<close>

text \<open>
  \<^verbatim>\<open>int(self._last_update.timestamp())\<close>: whole seconds, rounded towards zero. Python
  goes through the float \<^verbatim>\<open>timestamp()\<close>, which gives the same whole second for clocks
  below \<open>2 ^ 33\<close> seconds.
\<close>

definition int_timestamp :: "int \<Rightarrow> int" where
  "int_timestamp t = (if 0 \<le> t then t div 1000000 else - ((- t) div 1000000))"

definition fetch_service_alerts :: "env \<Rightarrow> mtapi \<Rightarrow> entity list" where
  "fetch_service_alerts ev m =
     (if GET_SERVICE_ALERTS m then
        (case load_mta_feed ev SERVICE_ALERT_URL of
           None \<Rightarrow> []
         | Some f \<Rightarrow>
             filter (\<lambda>e. is_alert_currently_active e (int_timestamp (m_last_update m)))
               (entities f))
      else [])"

text \<open>\<^verbatim>\<open>routes[route_id].add(stop_id)\<close> on the \<^verbatim>\<open>defaultdict(set)\<close>.\<close>

definition routes_add ::
  "string \<Rightarrow> string \<Rightarrow> (string \<times> string list) list \<Rightarrow> (string \<times> string list) list" where
  "routes_add rid stop rs =
     (case map_of rs rid of
        None \<Rightarrow> AList.update rid [stop] rs
      | Some stops \<Rightarrow> AList.update rid (List.insert stop stops) rs)"

text \<open>
  The body of \<^verbatim>\<open>for update in entity.trip_update.stop_time_update\<close>, on the working
  copy \<open>(stations, routes)\<close>.
\<close>

definition stop_time_step ::
  "(string \<rightharpoonup> string) \<Rightarrow> int \<Rightarrow> int \<Rightarrow> string \<Rightarrow> char \<Rightarrow> int \<Rightarrow> trip_stop \<Rightarrow>
   (string \<times> station) list \<times> (string \<times> string list) list \<Rightarrow>
   error + (string \<times> station) list \<times> (string \<times> string list) list" where
  "stop_time_step idx last_upd max_time rid dir feed_time u acc =
     (if ts_time u < last_upd \<or> ts_time u > max_time then Inr acc
      else
        (case idx (ts_stop_id u) of
           None \<Rightarrow> Inr acc
         | Some station_id \<Rightarrow>
             (case map_of (fst acc) station_id of
                None \<Rightarrow> Inl KeyError
              | Some st \<Rightarrow>
                  (case add_train rid dir (ts_time u) feed_time st of
                     Inl e \<Rightarrow> Inl e
                   | Inr st' \<Rightarrow>
                       Inr (AList.update station_id st' (fst acc),
                            routes_add rid (ts_stop_id u) (snd acc))))))"

text \<open>The body of \<^verbatim>\<open>for entity in mta_data.entity\<close>.\<close>

definition trip_step ::
  "(string \<rightharpoonup> string) \<Rightarrow> int \<Rightarrow> int \<Rightarrow> int \<Rightarrow> entity \<Rightarrow>
   (string \<times> station) list \<times> (string \<times> string list) list \<Rightarrow>
   error + (string \<times> station) list \<times> (string \<times> string list) list" where
  "trip_step idx last_upd max_time feed_time e acc =
     (if \<not> is_valid e then Inr acc
      else
        (case direction e of
           [] \<Rightarrow> Inl IndexError
         | d # _ \<Rightarrow>
             for_each (stop_time_step idx last_upd max_time (upper (route_id e)) d feed_time)
               (stop_time_update e) acc))"

text \<open>The body of \<^verbatim>\<open>for i, feed_url in enumerate(self._FEED_URLS)\<close>.\<close>

definition feed_step ::
  "env \<Rightarrow> mtapi \<Rightarrow> string \<Rightarrow>
   (string \<times> station) list \<times> (string \<times> string list) list \<Rightarrow>
   error + (string \<times> station) list \<times> (string \<times> string list) list" where
  "feed_step ev m feed_url acc =
     (case load_mta_feed ev feed_url of
        None \<Rightarrow> Inr acc
      | Some mta_data \<Rightarrow>
          (let max_time = m_last_update m + 60000000 * MAX_MINUTES m
           in for_each
                (trip_step (m_stops_to_stations m) (m_last_update m) max_time
                   (timestamp mta_data))
                (entities mta_data) acc))"

text \<open>
  The first half of \<^verbatim>\<open>_update\<close>, after \<^verbatim>\<open>_last_update\<close> is set: the cleared working copy
  and the empty route index, run through all feeds.
\<close>

definition collect ::
  "env \<Rightarrow> mtapi \<Rightarrow> error + (string \<times> station) list \<times> (string \<times> string list) list" where
  "collect ev m =
     for_each (feed_step ev m) FEED_URLS
       (map (\<lambda>(station_id, s). (station_id, clear_train_data s)) (m_stations m), [])"

text \<open>
  The loop \<^verbatim>\<open>for informed in alert_entity.alert.informed_entity\<close> for one station, with
  its two \<^verbatim>\<open>break\<close>s.
\<close>

fun informed_loop :: "string \<Rightarrow> string set \<Rightarrow> informed list \<Rightarrow> station \<Rightarrow> error + station" where
  "informed_loop txt station_routes [] s = Inr s"
| "informed_loop txt station_routes (i # rest) s =
     (case getitem s ''stops'' of
        Inl e \<Rightarrow> Inl e
      | Inr station_stops \<Rightarrow>
          (case alert_applies_to_stop i station_stops of
             Inl e \<Rightarrow> Inl e
           | Inr True \<Rightarrow> Inr (add_alert ''stop'' txt s)
           | Inr False \<Rightarrow>
               if (case inf_route_id i of None \<Rightarrow> False | Some r \<Rightarrow> r \<in> station_routes)
               then Inr (add_alert ''route'' txt s)
               else informed_loop txt station_routes rest s))"

text \<open>The body of \<^verbatim>\<open>for alert_entity in service_alerts\<close>.\<close>

definition alert_step :: "string set \<Rightarrow> entity \<Rightarrow> station \<Rightarrow> error + station" where
  "alert_step station_routes e s =
     (case get_alert_text e ''en-html'' of
        Inl err \<Rightarrow> Inl err
      | Inr None \<Rightarrow> Inr s
      | Inr (Some txt) \<Rightarrow>
          if txt = [] then Inr s
          else informed_loop txt station_routes (informed_entity e) s)"

text \<open>The body of \<^verbatim>\<open>for station_id, station in stations.items()\<close>.\<close>

definition station_alerts :: "entity list \<Rightarrow> station \<Rightarrow> error + station" where
  "station_alerts service_alerts s =
     for_each (alert_step (get_station_routes s)) service_alerts s"

definition add_service_alerts ::
  "entity list \<Rightarrow> (string \<times> station) list \<Rightarrow> error + (string \<times> station) list" where
  "add_service_alerts service_alerts stations =
     comprehend
       (\<lambda>(station_id, s).
          case station_alerts service_alerts s of
            Inl e \<Rightarrow> Inl e
          | Inr s' \<Rightarrow> Inr (station_id, s'))
       stations"

text \<open>
  \<^verbatim>\<open>_update\<close>: the object afterwards, and the exception if one was raised. An exception
  leaves the published stations and routes as they were; \<^verbatim>\<open>_last_update\<close> is already set.
\<close>

definition update :: "env \<Rightarrow> mtapi \<Rightarrow> mtapi \<times> error option" where
  "update ev m =
     (let m1 = m\<lparr>m_last_update := now ev, updates := Suc (updates m)\<rparr>;
          service_alerts = fetch_service_alerts ev m1
      in case collect ev m1 of
           Inl e \<Rightarrow> (m1, Some e)
         | Inr (collected, route_index) \<Rightarrow>
             (let sorted_stations =
                    map (\<lambda>(station_id, s). (station_id, sort_trains (MAX_TRAINS m1) s)) collected
              in case (if GET_SERVICE_ALERTS m1 \<and> service_alerts \<noteq> []
                       then add_service_alerts service_alerts sorted_stations
                       else Inr sorted_stations) of
                   Inl e \<Rightarrow> (m1, Some e)
                 | Inr stations \<Rightarrow> (m1\<lparr>m_routes := route_index, m_stations := stations\<rparr>, None)))"

subsection \<open>Expiry and queries\<close>

text \<open>
  The world during one query: the clock \<^verbatim>\<open>is_expired\<close> reads, the answer of the timer
  helper's \<^verbatim>\<open>restart_if_dead\<close> (asked in threaded mode only), and the world of the
  \<^verbatim>\<open>_update\<close> that the query may run.
\<close>

record world =
  clock :: int
  restart_if_dead :: bool
  update_env :: env

text \<open>
  \<^verbatim>\<open>is_expired\<close>. The age is compared in exact microseconds; Python compares the float
  \<^verbatim>\<open>age.total_seconds()\<close>, with the same outcome for ages and expiries below \<open>2 ^ 33\<close>
  seconds.
\<close>

definition is_expired :: "mtapi \<Rightarrow> world \<Rightarrow> bool" where
  "is_expired m w =
     (if THREADED m \<and> restart_if_dead w then False
      else if EXPIRES_SECONDS m \<noteq> 0 then
        clock w - m_last_update m > 1000000 * EXPIRES_SECONDS m
      else False)"

text \<open>\<^verbatim>\<open>if self.is_expired(): self._update()\<close>, the first statement of every query.\<close>

definition refresh :: "world \<Rightarrow> mtapi \<Rightarrow> mtapi \<times> error option" where
  "refresh w m = (if is_expired m w then update (update_env w) m else (m, None))"

definition get_routes :: "mtapi \<Rightarrow> string list" where
  "get_routes m = map fst (m_routes m)"

text \<open>\<^verbatim>\<open>self._routes[route]\<close> on the \<^verbatim>\<open>defaultdict(set)\<close>: a missing key is inserted.\<close>

definition routes_getitem ::
  "string \<Rightarrow> (string \<times> string list) list \<Rightarrow> (string \<times> string list) list \<times> string list" where
  "routes_getitem r rs =
     (case map_of rs r of
        Some stops \<Rightarrow> (rs, stops)
      | None \<Rightarrow> (AList.update r [] rs, []))"

text \<open>
  \<^verbatim>\<open>out.sort(key=lambda x: x['name'])\<close>, a stable sort. All keys are read first, then
  compared, and fewer than two records need no comparison. Strings compare with
  strings, numbers and booleans with each other (\<^verbatim>\<open>True\<close> is 1); \<^verbatim>\<open>None\<close>, a dict
  and values of different kinds do not compare, and once there are two records every key
  is compared with another one. Names that are lists, which Python compares element by
  element, are outside the embedding and are reported like the values that do not compare.
\<close>

definition name_of :: "(string \<rightharpoonup> pyval) \<Rightarrow> string" where
  "name_of x = (case x ''name'' of Some (Static (JStr n)) \<Rightarrow> n | _ \<Rightarrow> [])"

definition number_of :: "(string \<rightharpoonup> pyval) \<Rightarrow> real" where
  "number_of x =
     (case x ''name'' of
        Some (Static (JNum v)) \<Rightarrow> v
      | Some (Static (JBool b)) \<Rightarrow> (if b then 1 else 0)
      | _ \<Rightarrow> 0)"

definition sort_by_name :: "(string \<rightharpoonup> pyval) list \<Rightarrow> error + (string \<rightharpoonup> pyval) list" where
  "sort_by_name out =
     (case comprehend (\<lambda>x. case x ''name'' of None \<Rightarrow> Inl KeyError | Some v \<Rightarrow> Inr v) out of
        Inl e \<Rightarrow> Inl e
      | Inr keys \<Rightarrow>
          if length keys < 2 then Inr out
          else if list_all (\<lambda>v. case v of Static (JStr n) \<Rightarrow> True | _ \<Rightarrow> False) keys
          then Inr (sort_key name_of out)
          else if list_all (\<lambda>v. case v of Static (JNum x) \<Rightarrow> True | Static (JBool b) \<Rightarrow> True
                                | _ \<Rightarrow> False) keys
          then Inr (sort_key number_of out)
          else Inl TypeError)"

definition station_of_stop :: "mtapi \<Rightarrow> string \<Rightarrow> error + station" where
  "station_of_stop m k =
     (case m_stops_to_stations m k of
        None \<Rightarrow> Inl KeyError
      | Some station_id \<Rightarrow>
          (case map_of (m_stations m) station_id of
             None \<Rightarrow> Inl KeyError
           | Some s \<Rightarrow> Inr s))"

text \<open>
  Every query is its freshness step followed by its read of the object as the step left
  it: \<open>read_by_route\<close>, \<open>read_by_id\<close> and \<open>read_by_point\<close> are the statements after
  \<^verbatim>\<open>if self.is_expired(): self._update()\<close>. An exception of \<^verbatim>\<open>_update\<close> ends the query.
\<close>

definition read_by_route ::
  "string \<Rightarrow> mtapi \<Rightarrow> mtapi \<times> (error + (string \<rightharpoonup> pyval) list)" where
  "read_by_route r m1 =
     (let (rs, stops) = routes_getitem r (m_routes m1);
          m2 = m1\<lparr>m_routes := rs\<rparr>
      in case comprehend
                (\<lambda>k. case station_of_stop m2 k of
                       Inl e \<Rightarrow> Inl e
                     | Inr s \<Rightarrow> Inr (serialize s))
                stops of
           Inl e \<Rightarrow> (m2, Inl e)
         | Inr out \<Rightarrow> (m2, sort_by_name out))"

definition get_by_route ::
  "world \<Rightarrow> string \<Rightarrow> mtapi \<Rightarrow> mtapi \<times> (error + (string \<rightharpoonup> pyval) list)" where
  "get_by_route w route0 m =
     (let r = upper route0
      in case refresh w m of
           (m1, Some e) \<Rightarrow> (m1, Inl e)
         | (m1, None) \<Rightarrow> read_by_route r m1)"

definition read_by_id ::
  "string list \<Rightarrow> mtapi \<Rightarrow> mtapi \<times> (error + (string \<rightharpoonup> pyval) list)" where
  "read_by_id ids m1 =
     (m1, comprehend
            (\<lambda>k. case map_of (m_stations m1) k of
                   None \<Rightarrow> Inl KeyError
                 | Some s \<Rightarrow> Inr (serialize s))
            ids)"

definition get_by_id ::
  "world \<Rightarrow> string list \<Rightarrow> mtapi \<Rightarrow> mtapi \<times> (error + (string \<rightharpoonup> pyval) list)" where
  "get_by_id w ids m =
     (case refresh w m of
        (m1, Some e) \<Rightarrow> (m1, Inl e)
      | (m1, None) \<Rightarrow> read_by_id ids m1)"







subsection \<open>The constructor\<close>

text \<open>
  \<^verbatim>\<open>__init__\<close> on a catalog that \<^verbatim>\<open>json.load\<close> has read: an object whose members are
  objects. An exception of the first \<^verbatim>\<open>_update\<close> leaves no instance.
\<close>

definition init ::
  "(string \<times> (string \<rightharpoonup> jval)) list \<Rightarrow> int \<Rightarrow> int \<Rightarrow> int \<Rightarrow> bool \<Rightarrow> bool \<Rightarrow> env \<Rightarrow> error + mtapi" where
  "init catalog expires_seconds max_trains max_minutes threaded service_alerts ev =
     (let stations = map (\<lambda>(station_id, j). (station_id, new_station j)) catalog
      in case build_stops_index stations of
           Inl e \<Rightarrow> Inl e
         | Inr idx \<Rightarrow>
             (case update ev
                     \<lparr>MAX_TRAINS = max_trains, MAX_MINUTES = max_minutes,
                      EXPIRES_SECONDS = expires_seconds, THREADED = threaded,
                      GET_SERVICE_ALERTS = service_alerts, m_stations = stations,
                      m_stops_to_stations = idx, m_routes = [], m_last_update = now ev,
                      updates = 0\<rparr> of
                (m1, Some e) \<Rightarrow> Inl e
              | (m1, None) \<Rightarrow> Inr m1))"

section \<open>What a rebuild collects, in the words of the specification\<close>

text \<open>
  A stop-time update counts when its predicted time is neither earlier than \<open>t0\<close> nor
  later than \<open>t0\<close> plus \<open>max_minutes\<close>, and the Stop-to-Station Index maps its stop id
  to the station. \<open>arrivals\<close> lists, in feed order, the trains
  \<^verbatim>\<open>{route, time}\<close> of the counting updates of the valid trips whose direction starts with
  \<open>d\<close>, over all feeds that could be fetched.
\<close>

definition in_window :: "int \<Rightarrow> int \<Rightarrow> int \<Rightarrow> bool" where
  "in_window t0 max_minutes t = (t0 \<le> t \<and> t \<le> t0 + 60000000 * max_minutes)"

definition stop_arrivals ::
  "(string \<rightharpoonup> string) \<Rightarrow> int \<Rightarrow> int \<Rightarrow> string \<Rightarrow> string \<Rightarrow> trip_stop list \<Rightarrow> train list" where
  "stop_arrivals idx t0 max_minutes station_id rid us =
     map (\<lambda>u. \<lparr>route = rid, time = ts_time u\<rparr>)
       (filter (\<lambda>u. in_window t0 max_minutes (ts_time u) \<and> idx (ts_stop_id u) = Some station_id) us)"

definition trip_arrivals ::
  "(string \<rightharpoonup> string) \<Rightarrow> int \<Rightarrow> int \<Rightarrow> string \<Rightarrow> char \<Rightarrow> entity \<Rightarrow> train list" where
  "trip_arrivals idx t0 max_minutes station_id d e =
     (if is_valid e \<and> take 1 (direction e) = [d]
      then stop_arrivals idx t0 max_minutes station_id (upper (route_id e)) (stop_time_update e)
      else [])"

definition arrivals ::
  "env \<Rightarrow> (string \<rightharpoonup> string) \<Rightarrow> int \<Rightarrow> int \<Rightarrow> string \<Rightarrow> char \<Rightarrow> train list" where
  "arrivals ev idx t0 max_minutes station_id d =
     concat (map (\<lambda>feed_url.
                    case load_mta_feed ev feed_url of
                      None \<Rightarrow> []
                    | Some mta_data \<Rightarrow>
                        concat (map (trip_arrivals idx t0 max_minutes station_id d)
                                  (entities mta_data)))
               FEED_URLS)"

text \<open>
  Two relations between states of one station, for the loop invariants: \<open>st'\<close> is \<open>st\<close>
  with the trains \<open>ns\<close> and \<open>ss\<close> added; \<open>s'\<close> is \<open>s\<close> up to its alerts.
\<close>

definition grown :: "station \<Rightarrow> station \<Rightarrow> train list \<Rightarrow> train list \<Rightarrow> bool" where
  "grown st st' ns ss \<longleftrightarrow>
     trains_N st' = trains_N st @ ns \<and> trains_S st' = trains_S st @ ss \<and>
     routes st' = routes st \<union> set (map route (ns @ ss)) \<and>
     json st' = json st \<and> alerts st' = alerts st"

definition same_trains :: "station \<Rightarrow> station \<Rightarrow> bool" where
  "same_trains s s' \<longleftrightarrow>
     trains_N s' = trains_N s \<and> trains_S s' = trains_S s \<and> routes s' = routes s \<and>
     json s' = json s \<and> last_update s' = last_update s"

text \<open>An informed entity names a route of the station's served-route set.\<close>

definition route_applies :: "informed \<Rightarrow> string set \<Rightarrow> bool" where
  "route_applies i station_routes =
     (case inf_route_id i of None \<Rightarrow> False | Some r \<Rightarrow> r \<in> station_routes)"

text \<open>
  Which alerts a station holds after a rebuild, in the words of the specification. An
  informed entity matches by stop when it names a stop id that is one of the station's
  stop ids, as it stands or without its trailing direction letters (\<^verbatim>\<open>rstrip('NS')\<close>
  removes every trailing \<^verbatim>\<open>N\<close> and \<^verbatim>\<open>S\<close>). The first informed entity that matches by
  stop or by route decides the type, the stop test first. An alert has a header when
  \<^verbatim>\<open>_get_alert_text\<close> returns a text that is not empty. The alerts are taken in feed
  order, and an alert whose header text the station already holds is not attached.
\<close>

definition names_stop_of :: "informed \<Rightarrow> string list \<Rightarrow> bool" where
  "names_stop_of i stops =
     (case inf_stop_id i of
        None \<Rightarrow> False
      | Some a \<Rightarrow> a \<in> set stops \<or> rstrip ''NS'' a \<in> set stops)"

definition first_match :: "string list \<Rightarrow> string set \<Rightarrow> informed list \<Rightarrow> string option" where
  "first_match stops served infs =
     (case find (\<lambda>i. names_stop_of i stops \<or> route_applies i served) infs of
        None \<Rightarrow> None
      | Some i \<Rightarrow> Some (if names_stop_of i stops then ''stop'' else ''route''))"

definition header_of :: "entity \<Rightarrow> string option" where
  "header_of e =
     (case get_alert_text e ''en-html'' of
        Inr (Some txt) \<Rightarrow> if txt = [] then None else Some txt
      | _ \<Rightarrow> None)"

definition attachment :: "string list \<Rightarrow> string set \<Rightarrow> entity \<Rightarrow> alert option" where
  "attachment stops served e =
     (case header_of e of
        None \<Rightarrow> None
      | Some txt \<Rightarrow>
          map_option (\<lambda>ty. \<lparr>alert_type = ty, header_text = txt\<rparr>)
            (first_match stops served (informed_entity e)))"

definition attach_once :: "alert option \<Rightarrow> alert list \<Rightarrow> alert list" where
  "attach_once a held =
     (case a of
        None \<Rightarrow> held
      | Some x \<Rightarrow> if list_ex (\<lambda>b. header_text b = header_text x) held then held else held @ [x])"

fun attach_all :: "string list \<Rightarrow> string set \<Rightarrow> entity list \<Rightarrow> alert list \<Rightarrow> alert list" where
  "attach_all stops served [] held = held"
| "attach_all stops served (e # es) held =
     attach_all stops served es (attach_once (attachment stops served e) held)"

section \<open>A small system\<close>

text \<open>
  One station \<^verbatim>\<open>A\<close> with the stops \<^verbatim>\<open>A1\<close> and \<^verbatim>\<open>A2\<close>, at most one train per
  direction, a window of 30 minutes. The first feed holds five trips, 1, 2, 45, 1 and 3
  minutes ahead; the fourth names a stop that the catalog does not have. The other feeds
  cannot be fetched. \<open>ex_mtapi\<close> is the object as the constructor has it before its first
  \<^verbatim>\<open>_update\<close>, \<open>ex_published\<close> the object after it.
\<close>

definition ex_json :: "string \<rightharpoonup> jval" where
  "ex_json =
     [''name'' \<mapsto> JStr ''Alpha'', ''location'' \<mapsto> JArr [JNum 0, JNum 0],
      ''stops'' \<mapsto> JObj [(''A1'', JNull), (''A2'', JNull)]]"

definition ex_trip :: "string \<Rightarrow> string \<Rightarrow> string \<Rightarrow> int \<Rightarrow> entity" where
  "ex_trip r dir stop t =
     \<lparr>is_valid = True, direction = dir, route_id = r,
      stop_time_update = [\<lparr>ts_time = t, ts_stop_id = stop\<rparr>], active_period = [],
      header_translation = [], informed_entity = []\<rparr>"

definition ex_feed :: feed where
  "ex_feed =
     \<lparr>timestamp = 5,
      entities =
        [ex_trip ''7'' ''NORTH'' ''A1'' 60000000,
         ex_trip ''q'' ''NORTH'' ''A1'' 120000000,
         ex_trip ''7'' ''NORTH'' ''A1'' 2700000000,
         ex_trip ''7'' ''NORTH'' ''ZZ9'' 60000000,
         ex_trip ''7'' ''SOUTH'' ''A2'' 180000000]\<rparr>"

definition ex_env :: env where
  "ex_env = \<lparr>now = 0, load_mta_feed = (\<lambda>url. if url = hd FEED_URLS then Some ex_feed else None)\<rparr>"

definition ex_index :: "string \<rightharpoonup> string" where
  "ex_index = [''A1'' \<mapsto> ''A'', ''A2'' \<mapsto> ''A'']"

definition ex_mtapi :: mtapi where
  "ex_mtapi =
     \<lparr>MAX_TRAINS = 1, MAX_MINUTES = 30, EXPIRES_SECONDS = 60, THREADED = False,
      GET_SERVICE_ALERTS = False, m_stations = [(''A'', new_station ex_json)],
      m_stops_to_stations = ex_index, m_routes = [], m_last_update = 0, updates = 0\<rparr>"

definition ex_station :: station where
  "ex_station =
     \<lparr>json = ex_json, trains_N = [\<lparr>route = ''7'', time = 60000000\<rparr>],
      trains_S = [\<lparr>route = ''7'', time = 180000000\<rparr>], routes = {''7'', ''Q''},
      last_update = Some 5, alerts = []\<rparr>"

definition ex_published :: mtapi where
  "ex_published =
     ex_mtapi\<lparr>m_routes := [(''7'', [''A2'', ''A1'']), (''Q'', [''A1''])],
       m_stations := [(''A'', ex_station)], updates := 1\<rparr>"

text \<open>
  Two queries on \<open>ex_published\<close>: one second after the rebuild, and sixty seconds and
  one microsecond after it.
\<close>

definition ex_world :: world where
  "ex_world = \<lparr>clock = 1000000, restart_if_dead = False, update_env = ex_env\<rparr>"


text \<open>
  Service alerts switched on, and an alerts feed with one active alert for the stop
  \<^verbatim>\<open>A1N\<close>: once with an English header followed by a Spanish one, once with no header
  translation at all.
\<close>

definition ex_alert_en_first :: entity where
  "ex_alert_en_first =
     \<lparr>is_valid = False, direction = [], route_id = [], stop_time_update = [],
      active_period = [\<lparr>period_start = 0, period_end = 0\<rparr>],
      header_translation =
        [\<lparr>language = ''en'', tr_text = ''Delays''\<rparr>, \<lparr>language = ''es'', tr_text = ''Retrasos''\<rparr>],
      informed_entity = [\<lparr>inf_stop_id = Some ''A1N'', inf_route_id = None\<rparr>]\<rparr>"

definition ex_alert_no_text :: entity where
  "ex_alert_no_text = ex_alert_en_first\<lparr>header_translation := []\<rparr>"

definition ex_alert_env :: "entity \<Rightarrow> env" where
  "ex_alert_env e =
     \<lparr>now = 0,
      load_mta_feed = (\<lambda>url. if url = SERVICE_ALERT_URL
                             then Some \<lparr>timestamp = 5, entities = [e]\<rparr> else None)\<rparr>"

definition ex_alert_mtapi :: mtapi where
  "ex_alert_mtapi = ex_mtapi\<lparr>GET_SERVICE_ALERTS := True\<rparr>"










text \<open>The station as published when \<^verbatim>\<open>max_trains\<close> is 2: nothing is cut.\<close>

definition ex_station_two :: station where
  "ex_station_two =
     ex_station\<lparr>trains_N := [\<lparr>route = ''7'', time = 60000000\<rparr>, \<lparr>route = ''Q'', time = 120000000\<rparr>]\<rparr>"

section \<open>The loops of the rebuild\<close>

lemma for_each_invariant:
  assumes "\<And>x acc acc'. x \<in> set xs \<Longrightarrow> body x acc = Inr acc' \<Longrightarrow> P acc \<Longrightarrow> P acc'"
    and "for_each body xs acc = Inr acc'" and "P acc"
  shows "P acc'"
  using assms
proof (induction xs arbitrary: acc)
  case Nil
  then show ?case by simp
next
  case (Cons x xs)
  from Cons.prems(2) obtain mid where mid: "body x acc = Inr mid"
    and rest: "for_each body xs mid = Inr acc'"
    by (auto split: sum.splits)
  have "P mid" using Cons.prems(1) [OF _ mid Cons.prems(3)] by simp
  show ?case
    by (rule Cons.IH [OF _ rest \<open>P mid\<close>]) (rule Cons.prems(1), auto)
qed

lemma stop_time_step_keys:
  assumes "stop_time_step idx t0 hi rid dir ft u acc = Inr acc'"
  shows "dom (map_of (fst acc')) = dom (map_of (fst acc))"
  using assms
  by (auto simp: stop_time_step_def update_conv' split: if_splits option.splits sum.splits)

lemma trip_step_keys:
  assumes "trip_step idx t0 hi ft e acc = Inr acc'"
  shows "dom (map_of (fst acc')) = dom (map_of (fst acc))"
proof (cases "is_valid e")
  case False
  with assms show ?thesis by (simp add: trip_step_def)
next
  case True
  with assms obtain d ds where
    run: "for_each (stop_time_step idx t0 hi (upper (route_id e)) d ft)
                (stop_time_update e) acc = Inr acc'"
    by (auto simp: trip_step_def split: list.splits)
  show ?thesis
    by (rule for_each_invariant [OF _ run, where P = "\<lambda>a. dom (map_of (fst a)) = dom (map_of (fst acc))"])
      (drule stop_time_step_keys, simp, simp)
qed

lemma feed_step_keys:
  assumes "feed_step ev m url acc = Inr acc'"
  shows "dom (map_of (fst acc')) = dom (map_of (fst acc))"
proof (cases "load_mta_feed ev url")
  case None
  with assms show ?thesis by (simp add: feed_step_def)
next
  case (Some f)
  with assms have run: "for_each (trip_step (m_stops_to_stations m) (m_last_update m)
        (m_last_update m + 60000000 * MAX_MINUTES m) (timestamp f)) (entities f) acc = Inr acc'"
    by (simp add: feed_step_def)
  show ?thesis
    by (rule for_each_invariant [OF _ run, where P = "\<lambda>a. dom (map_of (fst a)) = dom (map_of (fst acc))"])
      (drule trip_step_keys, simp, simp)
qed

lemma collect_keys:
  assumes "collect ev m = Inr (collected, ri)"
  shows "dom (map_of collected) = dom (map_of (m_stations m))"
proof -
  let ?init = "(map (\<lambda>(station_id, s). (station_id, clear_train_data s)) (m_stations m),
                [] :: (string \<times> string list) list)"
  have run: "for_each (feed_step ev m) FEED_URLS ?init = Inr (collected, ri)"
    using assms(1) by (simp add: collect_def)
  have "dom (map_of (fst (collected, ri))) = dom (map_of (fst ?init))"
    by (rule for_each_invariant [OF _ run, where P = "\<lambda>a. dom (map_of (fst a)) = dom (map_of (fst ?init))"])
      (drule feed_step_keys, simp, simp)
  then show ?thesis
    by (simp add: map_of_map dom_def)
qed

lemma grown_refl: "grown st st [] []"
  by (simp add: grown_def)

lemma grown_trans:
  "grown st st' a b \<Longrightarrow> grown st' st'' c d \<Longrightarrow> grown st st'' (a @ c) (b @ d)"
  by (auto simp: grown_def)

lemma for_each_grown:
  assumes step: "\<And>x acc acc' st. x \<in> set xs \<Longrightarrow> body x acc = Inr acc' \<Longrightarrow>
            map_of (fst acc) sid = Some st \<Longrightarrow>
            \<exists>st'. map_of (fst acc') sid = Some st' \<and> grown st st' (cN x) (cS x)"
    and run: "for_each body xs acc = Inr acc'"
    and st: "map_of (fst acc) sid = Some st"
  shows "\<exists>st'. map_of (fst acc') sid = Some st' \<and>
           grown st st' (concat (map cN xs)) (concat (map cS xs))"
  using assms
proof (induction xs arbitrary: acc st)
  case Nil
  then show ?case by (auto simp: grown_refl)
next
  case (Cons x xs)
  from Cons.prems(2) obtain mid where mid: "body x acc = Inr mid"
    and rest: "for_each body xs mid = Inr acc'"
    by (auto split: sum.splits)
  from Cons.prems(1) [OF _ mid Cons.prems(3)] obtain st1
    where st1: "map_of (fst mid) sid = Some st1" "grown st st1 (cN x) (cS x)"
    by auto
  have "\<exists>st'. map_of (fst acc') sid = Some st' \<and>
           grown st1 st' (concat (map cN xs)) (concat (map cS xs))"
    by (rule Cons.IH [OF _ rest st1(1)]) (rule Cons.prems(1), auto)
  then obtain st' where "map_of (fst acc') sid = Some st'"
    "grown st1 st' (concat (map cN xs)) (concat (map cS xs))" by auto
  with st1(2) show ?case
    using grown_trans by fastforce
qed

lemma add_train_grown:
  assumes "add_train rid dir t ft st = Inr st'"
  shows "grown st st' (if dir = CHR ''N'' then [\<lparr>route = rid, time = t\<rparr>] else [])
           (if dir = CHR ''S'' then [\<lparr>route = rid, time = t\<rparr>] else [])"
  using assms by (auto simp: add_train_def grown_def Let_def split: if_splits)

lemma stop_time_step_grown:
  assumes "stop_time_step idx t0 (t0 + 60000000 * mm) rid dir ft u acc = Inr acc'"
    and "map_of (fst acc) sid = Some st"
  shows "\<exists>st'. map_of (fst acc') sid = Some st' \<and>
           grown st st'
             (if dir = CHR ''N'' then stop_arrivals idx t0 mm sid rid [u] else [])
             (if dir = CHR ''S'' then stop_arrivals idx t0 mm sid rid [u] else [])"
proof (cases "in_window t0 mm (ts_time u) \<and> idx (ts_stop_id u) = Some sid")
  case False
  with assms show ?thesis
    by (auto simp: stop_time_step_def stop_arrivals_def in_window_def grown_refl update_conv'
        split: if_splits option.splits sum.splits)
next
  case True
  with assms obtain st' where a: "add_train rid dir (ts_time u) ft st = Inr st'"
    and acc': "fst acc' = AList.update sid st' (fst acc)"
    by (auto simp: stop_time_step_def in_window_def split: if_splits option.splits sum.splits)
  from add_train_grown [OF a] True acc' show ?thesis
    by (auto simp: stop_arrivals_def update_conv')
qed

lemma concat_map_if_const:
  "concat (map (\<lambda>x. if c then f x else []) xs) = (if c then concat (map f xs) else [])"
  by (induction xs) auto

lemma stop_arrivals_concat:
  "concat (map (\<lambda>u. stop_arrivals idx t0 mm sid rid [u]) us) = stop_arrivals idx t0 mm sid rid us"
  by (induction us) (auto simp: stop_arrivals_def)

lemma trip_step_grown:
  assumes "trip_step idx t0 (t0 + 60000000 * mm) ft e acc = Inr acc'"
    and "map_of (fst acc) sid = Some st"
  shows "\<exists>st'. map_of (fst acc') sid = Some st' \<and>
           grown st st' (trip_arrivals idx t0 mm sid (CHR ''N'') e)
             (trip_arrivals idx t0 mm sid (CHR ''S'') e)"
proof (cases "is_valid e")
  case False
  with assms show ?thesis by (simp add: trip_step_def trip_arrivals_def grown_refl)
next
  case True
  with assms obtain d ds where d: "direction e = d # ds"
    and run: "for_each (stop_time_step idx t0 (t0 + 60000000 * mm) (upper (route_id e)) d ft)
                (stop_time_update e) acc = Inr acc'"
    by (auto simp: trip_step_def split: list.splits)
  have "\<exists>st'. map_of (fst acc') sid = Some st' \<and>
          grown st st'
            (concat (map (\<lambda>u. if d = CHR ''N'' then stop_arrivals idx t0 mm sid (upper (route_id e)) [u] else [])
                       (stop_time_update e)))
            (concat (map (\<lambda>u. if d = CHR ''S'' then stop_arrivals idx t0 mm sid (upper (route_id e)) [u] else [])
                       (stop_time_update e)))"
    by (rule for_each_grown [OF _ run assms(2)]) (rule stop_time_step_grown)
  then show ?thesis
    using True d by (auto simp: trip_arrivals_def concat_map_if_const stop_arrivals_concat)
qed

lemma feed_step_grown:
  assumes "feed_step ev m url acc = Inr acc'"
    and "map_of (fst acc) sid = Some st"
  shows "\<exists>st'. map_of (fst acc') sid = Some st' \<and>
           grown st st'
             (case load_mta_feed ev url of None \<Rightarrow> []
              | Some f \<Rightarrow> concat (map (trip_arrivals (m_stops_to_stations m) (m_last_update m)
                                        (MAX_MINUTES m) sid (CHR ''N'')) (entities f)))
             (case load_mta_feed ev url of None \<Rightarrow> []
              | Some f \<Rightarrow> concat (map (trip_arrivals (m_stops_to_stations m) (m_last_update m)
                                        (MAX_MINUTES m) sid (CHR ''S'')) (entities f)))"
proof (cases "load_mta_feed ev url")
  case None
  with assms show ?thesis by (simp add: feed_step_def grown_refl)
next
  case (Some f)
  with assms have run: "for_each (trip_step (m_stops_to_stations m) (m_last_update m)
        (m_last_update m + 60000000 * MAX_MINUTES m) (timestamp f)) (entities f) acc = Inr acc'"
    by (simp add: feed_step_def)
  show ?thesis
    unfolding Some option.case
    by (rule for_each_grown [OF _ run assms(2)]) (rule trip_step_grown)
qed

lemma collect_grown:
  assumes "collect ev m = Inr (collected, ri)"
    and "map_of (m_stations m) sid = Some s0"
  shows "\<exists>st. map_of collected sid = Some st \<and>
           grown (clear_train_data s0) st
             (arrivals ev (m_stops_to_stations m) (m_last_update m) (MAX_MINUTES m) sid (CHR ''N''))
             (arrivals ev (m_stops_to_stations m) (m_last_update m) (MAX_MINUTES m) sid (CHR ''S''))"
proof -
  let ?init = "(map (\<lambda>(station_id, s). (station_id, clear_train_data s)) (m_stations m),
                [] :: (string \<times> string list) list)"
  have run: "for_each (feed_step ev m) FEED_URLS ?init = Inr (collected, ri)"
    using assms(1) by (simp add: collect_def)
  have st: "map_of (fst ?init) sid = Some (clear_train_data s0)"
    using assms(2) by (simp add: map_of_map)
  have "\<exists>st'. map_of (fst (collected, ri)) sid = Some st' \<and>
          grown (clear_train_data s0) st'
            (concat (map (\<lambda>url. case load_mta_feed ev url of None \<Rightarrow> []
              | Some f \<Rightarrow> concat (map (trip_arrivals (m_stops_to_stations m) (m_last_update m)
                                        (MAX_MINUTES m) sid (CHR ''N'')) (entities f))) FEED_URLS))
            (concat (map (\<lambda>url. case load_mta_feed ev url of None \<Rightarrow> []
              | Some f \<Rightarrow> concat (map (trip_arrivals (m_stops_to_stations m) (m_last_update m)
                                        (MAX_MINUTES m) sid (CHR ''S'')) (entities f))) FEED_URLS))"
    by (rule for_each_grown [OF _ run st]) (rule feed_step_grown)
  then show ?thesis
    unfolding arrivals_def by simp
qed

lemma add_alert_same: "same_trains s (add_alert ty txt s)"
  by (simp add: add_alert_def same_trains_def)

lemma same_trains_trans: "same_trains a b \<Longrightarrow> same_trains b c \<Longrightarrow> same_trains a c"
  by (simp add: same_trains_def)

lemma same_trains_refl: "same_trains s s"
  by (simp add: same_trains_def)

lemma informed_loop_same:
  "informed_loop txt sr infs s = Inr s' \<Longrightarrow> same_trains s s'"
proof (induction infs)
  case Nil
  then show ?case by (auto simp: same_trains_refl)
next
  case (Cons i infs)
  then show ?case
    by (auto simp: add_alert_same split: sum.splits if_splits bool.splits)
qed

lemma alert_step_same: "alert_step sr e s = Inr s' \<Longrightarrow> same_trains s s'"
  by (auto simp: alert_step_def same_trains_refl informed_loop_same
      split: sum.splits option.splits if_splits)

lemma station_alerts_same:
  assumes "station_alerts sa s = Inr s'"
  shows "same_trains s s'"
proof -
  have run: "for_each (alert_step (get_station_routes s)) sa s = Inr s'"
    using assms by (simp add: station_alerts_def)
  show ?thesis
    by (rule for_each_invariant [OF _ run, where P = "same_trains s"])
      (blast intro: alert_step_same same_trains_trans, rule same_trains_refl)
qed

lemma add_service_alerts_lookup:
  assumes "add_service_alerts sa l = Inr l'" and "map_of l' sid = Some st'"
  shows "\<exists>st. map_of l sid = Some st \<and> station_alerts sa st = Inr st'"
  using assms unfolding add_service_alerts_def
proof (induction l arbitrary: l')
  case Nil
  then show ?case by simp
next
  case (Cons p l)
  obtain k s where p: "p = (k, s)" by (cases p)
  from Cons.prems(1) p obtain s1 l1 where s1: "station_alerts sa s = Inr s1"
    and l1: "comprehend (\<lambda>(station_id, s). case station_alerts sa s of Inl e \<Rightarrow> Inl e
               | Inr s' \<Rightarrow> Inr (station_id, s')) l = Inr l1"
    and l': "l' = (k, s1) # l1"
    by (auto split: sum.splits)
  show ?case
  proof (cases "sid = k")
    case True
    with Cons.prems(2) l' s1 p show ?thesis by simp
  next
    case False
    with Cons.prems(2) l' have "map_of l1 sid = Some st'" by simp
    from Cons.IH [OF l1 this] False p show ?thesis by simp
  qed
qed

lemma update_station:
  assumes upd: "update ev m = (m', None)" and st: "map_of (m_stations m') sid = Some st"
  shows "\<exists>s0. map_of (m_stations m) sid = Some s0 \<and> json st = json s0 \<and>
           trains_N st = slice_to (MAX_TRAINS m)
             (sort_key time (arrivals ev (m_stops_to_stations m) (now ev) (MAX_MINUTES m) sid (CHR ''N''))) \<and>
           trains_S st = slice_to (MAX_TRAINS m)
             (sort_key time (arrivals ev (m_stops_to_stations m) (now ev) (MAX_MINUTES m) sid (CHR ''S''))) \<and>
           routes st = set (map route
             (arrivals ev (m_stops_to_stations m) (now ev) (MAX_MINUTES m) sid (CHR ''N'') @
              arrivals ev (m_stops_to_stations m) (now ev) (MAX_MINUTES m) sid (CHR ''S'')))"
proof -
  let ?m1 = "m\<lparr>m_last_update := now ev, updates := Suc (updates m)\<rparr>"
  let ?sa = "fetch_service_alerts ev ?m1"
  from upd obtain collected ri where c: "collect ev ?m1 = Inr (collected, ri)"
    by (auto simp: update_def Let_def split: sum.splits)
  let ?sorted = "map (\<lambda>(station_id, s). (station_id, sort_trains (MAX_TRAINS m) s)) collected"
  from upd c have fin:
    "(if GET_SERVICE_ALERTS m \<and> ?sa \<noteq> [] then add_service_alerts ?sa ?sorted else Inr ?sorted)
       = Inr (m_stations m')"
    by (auto simp: update_def Let_def split: sum.splits if_splits)
  have "\<exists>s1. map_of ?sorted sid = Some s1 \<and> same_trains s1 st"
  proof (cases "GET_SERVICE_ALERTS m \<and> ?sa \<noteq> []")
    case True
    with fin have "add_service_alerts ?sa ?sorted = Inr (m_stations m')" by simp
    from add_service_alerts_lookup [OF this st] show ?thesis
      by (auto dest: station_alerts_same)
  next
    case False
    with fin st show ?thesis by (auto simp: same_trains_def)
  qed
  then obtain s1 where s1: "map_of ?sorted sid = Some s1" and same: "same_trains s1 st"
    by auto
  from s1 obtain s2 where s2: "map_of collected sid = Some s2"
    and s1_def: "s1 = sort_trains (MAX_TRAINS m) s2"
    by (auto simp: map_of_map)
  from s2 collect_keys [OF c] obtain s0 where s0: "map_of (m_stations m) sid = Some s0"
    by (auto simp: dom_def)
  have "\<exists>x. map_of collected sid = Some x \<and>
           grown (clear_train_data s0) x
             (arrivals ev (m_stops_to_stations ?m1) (m_last_update ?m1) (MAX_MINUTES ?m1) sid (CHR ''N''))
             (arrivals ev (m_stops_to_stations ?m1) (m_last_update ?m1) (MAX_MINUTES ?m1) sid (CHR ''S''))"
    by (rule collect_grown [OF c]) (simp_all add: s0)
  with s2 have g: "grown (clear_train_data s0) s2
             (arrivals ev (m_stops_to_stations m) (now ev) (MAX_MINUTES m) sid (CHR ''N''))
             (arrivals ev (m_stops_to_stations m) (now ev) (MAX_MINUTES m) sid (CHR ''S''))"
    by simp
  from g same s1_def s0 show ?thesis
    by (simp add: grown_def same_trains_def sort_trains_def clear_train_data_def Let_def)
qed

section \<open>The small system, evaluated\<close>

lemmas rebuild_defs = update_def collect_def feed_step_def trip_step_def stop_time_step_def
  add_train_def sort_trains_def slice_to_def clear_train_data_def new_station_def routes_add_def
  fetch_service_alerts_def FEED_URLS_def upper_def to_upper_def Let_def


lemma ex_update: "update ex_env ex_mtapi = (ex_published, None)"
  by (simp add: rebuild_defs ex_env_def ex_mtapi_def ex_feed_def ex_trip_def ex_index_def
      ex_published_def ex_station_def insert_commute)

lemma ex_init:
  "init [(''A'', ex_json)] 60 1 30 False False ex_env = Inr ex_published"
proof -
  have idx: "build_stops_index [(''A'', new_station ex_json)] = Inr ex_index"
    by (simp add: build_stops_index_def stops_keys_def getitem_def new_station_def
        ex_json_def ex_index_def)
  have m: "\<lparr>MAX_TRAINS = 1, MAX_MINUTES = 30, EXPIRES_SECONDS = 60, THREADED = False,
      GET_SERVICE_ALERTS = False, m_stations = [(''A'', new_station ex_json)],
      m_stops_to_stations = ex_index, m_routes = [], m_last_update = now ex_env, updates = 0\<rparr>
      = ex_mtapi"
    by (simp add: ex_mtapi_def ex_env_def)
  show ?thesis
    unfolding init_def Let_def by (simp add: idx m ex_update)
qed

lemma ex_update_two:
  "update ex_env (ex_mtapi\<lparr>MAX_TRAINS := 2\<rparr>) =
     (ex_published\<lparr>MAX_TRAINS := 2, m_stations := [(''A'', ex_station_two)]\<rparr>, None)"
  by (simp add: rebuild_defs ex_env_def ex_mtapi_def ex_feed_def ex_trip_def ex_index_def
      ex_published_def ex_station_def ex_station_two_def insert_commute)

lemma ex_update_again: "update ex_env ex_published = (ex_published\<lparr>updates := 2\<rparr>, None)"
  by (simp add: rebuild_defs ex_env_def ex_mtapi_def ex_feed_def ex_trip_def ex_index_def
      ex_published_def ex_station_def insert_commute)

lemma set_slice_to: "set (slice_to n xs) \<subseteq> set xs"
  by (auto simp: slice_to_def dest: in_set_takeD)

lemma slice_to_all: "0 \<le> n \<Longrightarrow> int (length xs) \<le> n \<Longrightarrow> slice_to n xs = xs"
  by (simp add: slice_to_def)

lemma length_slice_to: "0 \<le> n \<Longrightarrow> int (length (slice_to n xs)) \<le> n"
  by (simp add: slice_to_def)

lemma sorted_slice_to: "sorted (map f xs) \<Longrightarrow> sorted (map f (slice_to n xs))"
  by (simp add: slice_to_def take_map [symmetric] sorted_wrt_take)

lemmas arrivals_defs = arrivals_def trip_arrivals_def stop_arrivals_def in_window_def

lemma ex_arrivals_N:
  "arrivals ex_env ex_index 0 30 ''A'' (CHR ''N'') =
     [\<lparr>route = ''7'', time = 60000000\<rparr>, \<lparr>route = ''Q'', time = 120000000\<rparr>]"
  by (simp add: arrivals_defs FEED_URLS_def ex_env_def ex_feed_def ex_trip_def ex_index_def
      upper_def to_upper_def)

lemma ex_arrivals_S:
  "arrivals ex_env ex_index 0 30 ''A'' (CHR ''S'') = [\<lparr>route = ''7'', time = 180000000\<rparr>]"
  by (simp add: arrivals_defs FEED_URLS_def ex_env_def ex_feed_def ex_trip_def ex_index_def
      upper_def to_upper_def)

section \<open>Which stop-time updates become trains\<close>



section \<open>The published train lists\<close>

text \<open>
  C2. After a rebuild that publishes, for every station of the snapshot and both
  directions, the train list is sorted non-decreasing by predicted time, and its length is
  at most \<^verbatim>\<open>max_trains\<close> (a count: not negative).
\<close>

theorem trains_bounded_and_sorted:
  assumes "update ev m = (m', None)" and "map_of (m_stations m') sid = Some st"
  shows "sorted (map time (trains_N st)) \<and> sorted (map time (trains_S st)) \<and>
         (0 \<le> MAX_TRAINS m \<longrightarrow>
            int (length (trains_N st)) \<le> MAX_TRAINS m \<and>
            int (length (trains_S st)) \<le> MAX_TRAINS m)"
proof -
  from update_station [OF assms] show ?thesis
    by (auto simp: sorted_slice_to length_slice_to)
qed

theorem trains_bounded_and_sorted_witness:
  "update ex_env ex_mtapi = (ex_published, None) \<and>
   map_of (m_stations ex_published) ''A'' = Some ex_station \<and>
   0 \<le> MAX_TRAINS ex_mtapi \<and>
   sorted (map time (trains_N ex_station)) \<and> sorted (map time (trains_S ex_station)) \<and>
   int (length (trains_N ex_station)) \<le> MAX_TRAINS ex_mtapi \<and>
   int (length (trains_S ex_station)) \<le> MAX_TRAINS ex_mtapi"
proof -
  have s: "map_of (m_stations ex_published) ''A'' = Some ex_station"
    by (simp add: ex_published_def)
  have p: "0 \<le> MAX_TRAINS ex_mtapi"
    by (simp add: ex_mtapi_def)
  from trains_bounded_and_sorted [OF ex_update s] p ex_update s show ?thesis
    by blast
qed

text \<open>
  C1, as the code has it. After a rebuild that publishes, a station's \<^verbatim>\<open>routes\<close> is the set
  of the route ids of all trains that the rebuild added to the station, before the lists
  were cut to \<^verbatim>\<open>max_trains\<close>. So it contains every route id of the published lists; it
  equals their set when no list was cut.
\<close>

theorem routes_cover_all_arrivals:
  assumes "update ev m = (m', None)" and "map_of (m_stations m') sid = Some st"
  shows "routes st =
           set (map route
             (arrivals ev (m_stops_to_stations m) (now ev) (MAX_MINUTES m) sid (CHR ''N'') @
              arrivals ev (m_stops_to_stations m) (now ev) (MAX_MINUTES m) sid (CHR ''S''))) \<and>
         get_station_routes st \<subseteq> routes st \<and>
         (0 \<le> MAX_TRAINS m \<and>
          int (length (arrivals ev (m_stops_to_stations m) (now ev) (MAX_MINUTES m) sid (CHR ''N'')))
            \<le> MAX_TRAINS m \<and>
          int (length (arrivals ev (m_stops_to_stations m) (now ev) (MAX_MINUTES m) sid (CHR ''S'')))
            \<le> MAX_TRAINS m
          \<longrightarrow> routes st = get_station_routes st)"
proof -
  let ?n = "arrivals ev (m_stops_to_stations m) (now ev) (MAX_MINUTES m) sid (CHR ''N'')"
  let ?s = "arrivals ev (m_stops_to_stations m) (now ev) (MAX_MINUTES m) sid (CHR ''S'')"
  from update_station [OF assms] have
    n: "trains_N st = slice_to (MAX_TRAINS m) (sort_key time ?n)" and
    s: "trains_S st = slice_to (MAX_TRAINS m) (sort_key time ?s)" and
    r: "routes st = set (map route (?n @ ?s))"
    by auto
  have sub: "get_station_routes st \<subseteq> routes st"
    using set_slice_to [of "MAX_TRAINS m" "sort_key time ?n"]
      set_slice_to [of "MAX_TRAINS m" "sort_key time ?s"]
    by (auto simp: get_station_routes_def n s r)
  have eq: "routes st = get_station_routes st"
    if "0 \<le> MAX_TRAINS m" "int (length ?n) \<le> MAX_TRAINS m" "int (length ?s) \<le> MAX_TRAINS m"
    using that by (simp add: get_station_routes_def n s r slice_to_all)
  from r sub eq show ?thesis by blast
qed

theorem routes_cover_all_arrivals_witness:
  "update ex_env ex_mtapi = (ex_published, None) \<and>
   map_of (m_stations ex_published) ''A'' = Some ex_station \<and>
   routes ex_station =
     set (map route (arrivals ex_env ex_index 0 30 ''A'' (CHR ''N'') @
                     arrivals ex_env ex_index 0 30 ''A'' (CHR ''S''))) \<and>
   get_station_routes ex_station \<subseteq> routes ex_station \<and>
   update ex_env (ex_mtapi\<lparr>MAX_TRAINS := 2\<rparr>) =
     (ex_published\<lparr>MAX_TRAINS := 2, m_stations := [(''A'', ex_station_two)]\<rparr>, None) \<and>
   int (length (arrivals ex_env ex_index 0 30 ''A'' (CHR ''N''))) \<le> 2 \<and>
   int (length (arrivals ex_env ex_index 0 30 ''A'' (CHR ''S''))) \<le> 2 \<and>
   routes ex_station_two = get_station_routes ex_station_two"
proof -
  have s: "map_of (m_stations ex_published) ''A'' = Some ex_station"
    by (simp add: ex_published_def)
  have f: "m_stops_to_stations ex_mtapi = ex_index" "now ex_env = 0"
    "MAX_MINUTES ex_mtapi = 30"
    by (simp_all add: ex_mtapi_def ex_env_def)
  have s2: "map_of (m_stations (ex_published\<lparr>MAX_TRAINS := 2,
              m_stations := [(''A'', ex_station_two)]\<rparr>)) ''A'' = Some ex_station_two"
    by simp
  have f2: "m_stops_to_stations (ex_mtapi\<lparr>MAX_TRAINS := 2\<rparr>) = ex_index"
    "MAX_MINUTES (ex_mtapi\<lparr>MAX_TRAINS := 2\<rparr>) = 30" "MAX_TRAINS (ex_mtapi\<lparr>MAX_TRAINS := 2\<rparr>) = 2"
    by (simp_all add: ex_mtapi_def)
  have l: "int (length (arrivals ex_env ex_index 0 30 ''A'' (CHR ''N''))) \<le> 2"
    "int (length (arrivals ex_env ex_index 0 30 ''A'' (CHR ''S''))) \<le> 2"
    by (simp_all add: ex_arrivals_N ex_arrivals_S)
  note a = routes_cover_all_arrivals [OF ex_update s, unfolded f]
  note b = routes_cover_all_arrivals [OF ex_update_two s2, unfolded f f2]
  have z: "(0::int) \<le> 2"
    by simp
  from b l z have e: "routes ex_station_two = get_station_routes ex_station_two"
    by blast
  from a ex_update s ex_update_two l e show ?thesis
    by blast
qed

text \<open>
  C1 as stated fails: with \<^verbatim>\<open>max_trains = 1\<close> the train of route \<^verbatim>\<open>Q\<close>, second in
  direction \<^verbatim>\<open>N\<close>, is cut from the list, and \<^verbatim>\<open>Q\<close> stays in \<^verbatim>\<open>routes\<close>.
\<close>

theorem routes_not_exactly_train_routes:
  "update ex_env ex_mtapi = (ex_published, None) \<and>
   map_of (m_stations ex_published) ''A'' = Some ex_station \<and>
   routes ex_station = {''7'', ''Q''} \<and>
   get_station_routes ex_station = {''7''} \<and>
   routes ex_station \<noteq> get_station_routes ex_station"
  by (simp add: ex_update) (auto simp: ex_published_def ex_station_def get_station_routes_def)

section \<open>Lookups of unknown identifiers\<close>

lemma update_absent: "map_of al k = None \<Longrightarrow> AList.update k v al = al @ [(k, v)]"
  by (induction al) (auto split: if_splits)

lemma sort_by_name_Nil: "sort_by_name [] = Inr []"
  by (simp add: sort_by_name_def)

lemma get_by_route_absent:
  assumes "refresh w m = (m1, None)" and "map_of (m_routes m1) (upper r) = None"
  shows "get_by_route w r m = (m1\<lparr>m_routes := m_routes m1 @ [(upper r, [])]\<rparr>, Inr [])"
  using assms
  by (simp add: get_by_route_def read_by_route_def routes_getitem_def update_absent
      sort_by_name_Nil)

lemma feed_step_cong:
  assumes "m_stops_to_stations m = m_stops_to_stations m'"
    and "m_last_update m = m_last_update m'" and "MAX_MINUTES m = MAX_MINUTES m'"
  shows "feed_step ev m = feed_step ev m'"
  using assms by (intro ext) (simp add: feed_step_def split: option.split)

lemma collect_cong:
  assumes "m_stations m = m_stations m'" and "m_stops_to_stations m = m_stops_to_stations m'"
    and "m_last_update m = m_last_update m'" and "MAX_MINUTES m = MAX_MINUTES m'"
  shows "collect ev m = collect ev m'"
  using assms feed_step_cong [of m m' ev] by (simp add: collect_def)

lemma fetch_cong:
  assumes "GET_SERVICE_ALERTS m = GET_SERVICE_ALERTS m'" and "m_last_update m = m_last_update m'"
  shows "fetch_service_alerts ev m = fetch_service_alerts ev m'"
  using assms by (simp add: fetch_service_alerts_def split: option.split)

lemma update_replaces_routes:
  assumes "snd (update ev m) = None"
  shows "update ev (m\<lparr>m_routes := rs\<rparr>) = update ev m"
proof -
  let ?a = "(m\<lparr>m_routes := rs\<rparr>)\<lparr>m_last_update := now ev,
              updates := Suc (updates (m\<lparr>m_routes := rs\<rparr>))\<rparr>"
  let ?b = "m\<lparr>m_last_update := now ev, updates := Suc (updates m)\<rparr>"
  have c: "collect ev ?a = collect ev ?b"
    by (rule collect_cong) simp_all
  have f: "fetch_service_alerts ev ?a = fetch_service_alerts ev ?b"
    by (rule fetch_cong) simp_all
  have g: "GET_SERVICE_ALERTS ?a = GET_SERVICE_ALERTS ?b" "MAX_TRAINS ?a = MAX_TRAINS ?b"
    by simp_all
  show ?thesis
  proof (cases "collect ev ?b")
    case (Inl e)
    with assms show ?thesis by (simp add: update_def Let_def)
  next
    case (Inr p)
    obtain collected ri where p: "p = (collected, ri)" by (cases p)
    show ?thesis
      using assms Inr p
      unfolding update_def Let_def c f g
      by (auto split: sum.splits)
  qed
qed

lemma ex_refresh: "refresh ex_world ex_published = (ex_published, None)"
  by (simp add: refresh_def is_expired_def ex_world_def ex_published_def ex_mtapi_def)

lemma ex_upper_zz: "upper ''zz'' = ''ZZ''"
  by (simp add: upper_def to_upper_def)

lemma comprehend_KeyError:
  assumes "\<And>x. x \<in> set xs \<Longrightarrow> f x = Inl KeyError \<or> (\<exists>y. f x = Inr y)"
    and "\<exists>x \<in> set xs. f x = Inl KeyError"
  shows "comprehend f xs = Inl KeyError"
  using assms
proof (induction xs)
  case Nil
  then show ?case by simp
next
  case (Cons x xs)
  show ?case
  proof (cases "f x")
    case (Inl e)
    with Cons.prems(1) [of x] show ?thesis by simp
  next
    case (Inr y)
    with Cons.prems(2) have "\<exists>x \<in> set xs. f x = Inl KeyError" by auto
    with Cons.IH Cons.prems(1) have "comprehend f xs = Inl KeyError" by simp
    with Inr show ?thesis by simp
  qed
qed

lemma get_by_id_unknown:
  assumes "refresh w m = (m1, None)" and "k \<in> set ids" and "map_of (m_stations m1) k = None"
  shows "get_by_id w ids m = (m1, Inl KeyError)"
proof -
  have "comprehend (\<lambda>k. case map_of (m_stations m1) k of None \<Rightarrow> Inl KeyError
                         | Some s \<Rightarrow> Inr (serialize s)) ids = Inl KeyError"
    by (rule comprehend_KeyError) (use assms(2,3) in \<open>auto split: option.splits\<close>)
  with assms(1) show ?thesis by (simp add: get_by_id_def read_by_id_def)
qed

text \<open>
  C9. \<^verbatim>\<open>get_by_route\<close> with a route id that is not in the route index (after the freshness
  step, and in upper case) returns the empty list and inserts the id into the live index
  with an empty stop set: the id is among \<^verbatim>\<open>get_routes()\<close> afterwards and was not before.
  The next rebuild that publishes does so as if the id had never been inserted: it
  replaces the index.
\<close>

theorem get_by_route_inserts_unknown_route:
  assumes "refresh w m = (m1, None)" and "map_of (m_routes m1) (upper r) = None"
  shows "get_by_route w r m = (m1\<lparr>m_routes := m_routes m1 @ [(upper r, [])]\<rparr>, Inr []) \<and>
         upper r \<notin> set (get_routes m1) \<and>
         upper r \<in> set (get_routes (fst (get_by_route w r m))) \<and>
         (\<forall>ev. snd (update ev m1) = None \<longrightarrow>
            update ev (fst (get_by_route w r m)) = update ev m1)"
proof -
  have a: "get_by_route w r m = (m1\<lparr>m_routes := m_routes m1 @ [(upper r, [])]\<rparr>, Inr [])"
    by (rule get_by_route_absent [OF assms])
  have b: "upper r \<notin> set (get_routes m1)"
    using assms(2) by (simp add: get_routes_def map_of_eq_None_iff)
  have c: "upper r \<in> set (get_routes (fst (get_by_route w r m)))"
    by (simp add: a get_routes_def)
  have d: "\<forall>ev. snd (update ev m1) = None \<longrightarrow>
            update ev (fst (get_by_route w r m)) = update ev m1"
    by (simp add: a update_replaces_routes)
  from a b c d show ?thesis by blast
qed

theorem get_by_route_inserts_unknown_route_witness:
  "refresh ex_world ex_published = (ex_published, None) \<and>
   map_of (m_routes ex_published) (upper ''zz'') = None \<and>
   get_by_route ex_world ''zz'' ex_published =
     (ex_published\<lparr>m_routes := [(''7'', [''A2'', ''A1'']), (''Q'', [''A1'']), (''ZZ'', [])]\<rparr>,
      Inr []) \<and>
   get_routes ex_published = [''7'', ''Q''] \<and>
   get_routes (fst (get_by_route ex_world ''zz'' ex_published)) = [''7'', ''Q'', ''ZZ''] \<and>
   snd (update ex_env ex_published) = None \<and>
   get_routes (fst (update ex_env (fst (get_by_route ex_world ''zz'' ex_published))))
     = [''7'', ''Q'']"
proof -
  have h: "map_of (m_routes ex_published) (upper ''zz'') = None"
    by (simp add: ex_upper_zz ex_published_def)
  have r: "m_routes ex_published @ [(upper ''zz'', [])] =
      [(''7'', [''A2'', ''A1'']), (''Q'', [''A1'']), (''ZZ'', [])]"
    by (simp add: ex_upper_zz ex_published_def)
  note t = get_by_route_inserts_unknown_route [OF ex_refresh h, unfolded r]
  from t have g: "get_by_route ex_world ''zz'' ex_published =
     (ex_published\<lparr>m_routes := [(''7'', [''A2'', ''A1'']), (''Q'', [''A1'']), (''ZZ'', [])]\<rparr>,
      Inr [])"
    by blast
  have a: "get_routes ex_published = [''7'', ''Q'']"
    by (simp add: get_routes_def ex_published_def)
  have b: "get_routes (fst (get_by_route ex_world ''zz'' ex_published)) = [''7'', ''Q'', ''ZZ'']"
    by (simp add: g get_routes_def)
  have n: "snd (update ex_env ex_published) = None"
    by (simp add: ex_update_again)
  from t n have u: "update ex_env (fst (get_by_route ex_world ''zz'' ex_published)) =
      update ex_env ex_published"
    by blast
  have c: "get_routes (fst (update ex_env (fst (get_by_route ex_world ''zz'' ex_published))))
     = [''7'', ''Q'']"
    unfolding u ex_update_again by (simp add: get_routes_def ex_published_def)
  from ex_refresh h g a b n c show ?thesis by blast
qed

text \<open>
  C4. \<^verbatim>\<open>get_by_id\<close> with an id that the station map does not have raises \<^verbatim>\<open>KeyError\<close>.
  \<^verbatim>\<open>get_by_route\<close> does not: on \<open>ex_published\<close>, whose routes are \<^verbatim>\<open>7\<close> and \<^verbatim>\<open>Q\<close>, the
  route \<^verbatim>\<open>zz\<close> gives the empty list and no exception, where \<^verbatim>\<open>get_by_id\<close> with the
  unknown id \<^verbatim>\<open>B\<close> raises.
\<close>

theorem get_by_route_unknown_route_returns_empty:
  "get_by_route ex_world ''zz'' ex_published =
     (ex_published\<lparr>m_routes := [(''7'', [''A2'', ''A1'']), (''Q'', [''A1'']), (''ZZ'', [])]\<rparr>,
      Inr []) \<and>
   get_by_id ex_world [''B''] ex_published = (ex_published, Inl KeyError)"
proof -
  have h: "map_of (m_routes ex_published) (upper ''zz'') = None"
    by (simp add: ex_upper_zz ex_published_def)
  have a: "get_by_route ex_world ''zz'' ex_published =
     (ex_published\<lparr>m_routes := [(''7'', [''A2'', ''A1'']), (''Q'', [''A1'']), (''ZZ'', [])]\<rparr>,
      Inr [])"
    using get_by_route_absent [OF ex_refresh h] by (simp add: ex_upper_zz ex_published_def)
  have b: "get_by_id ex_world [''B''] ex_published = (ex_published, Inl KeyError)"
    by (rule get_by_id_unknown [OF ex_refresh, where k = "''B''"])
      (simp_all add: ex_published_def)
  from a b show ?thesis by blast
qed

section \<open>Expiry\<close>













section \<open>The header text of an alert\<close>

text \<open>
  What \<^verbatim>\<open>_get_alert_text\<close> returns: the text of the first translation in the requested
  language when there is one; otherwise the text of the last translation when that one
  is English, and \<^verbatim>\<open>None\<close> when the last one is in another language.
\<close>

lemma get_alert_text_loop_requested:
  assumes "lang \<in> language ` set ts"
  shows "get_alert_text_loop ts lang v =
           Inr (Some (tr_text (hd (filter (\<lambda>t. language t = lang) ts))))"
  using assms by (induction ts arbitrary: v) auto

lemma get_alert_text_loop_english_last:
  assumes "lang \<notin> language ` set ts" and "language t = ''en''" and "lang \<noteq> ''en''"
  shows "get_alert_text_loop (ts @ [t]) lang v = Inr (Some (tr_text t))"
  using assms by (induction ts arbitrary: v) auto

lemma get_alert_text_loop_other_last:
  assumes "lang \<notin> language ` set ts" and "language t \<noteq> ''en''" and "language t \<noteq> lang"
  shows "get_alert_text_loop (ts @ [t]) lang v = Inr None"
  using assms by (induction ts arbitrary: v) auto

lemmas alert_defs = add_service_alerts_def station_alerts_def alert_step_def get_alert_text_def
  is_alert_currently_active_def int_timestamp_def SERVICE_ALERT_URL_def
  getitem_def alert_applies_to_stop_def rstrip_def add_alert_def get_station_routes_def

text \<open>
  C3. The fallback to the plain English translation is lost when that translation is not
  the last one: for the headers \<^verbatim>\<open>en\<close>, \<^verbatim>\<open>es\<close> and the requested \<^verbatim>\<open>en-html\<close> the result
  is \<^verbatim>\<open>None\<close>, and the rebuild attaches the alert to no station. An alert without any
  header translation is not skipped: \<^verbatim>\<open>english_text\<close> is unbound, the exception leaves
  \<^verbatim>\<open>_get_alert_text\<close> and \<^verbatim>\<open>_update\<close>, and nothing is published.
\<close>

theorem english_fallback_lost:
  "get_alert_text ex_alert_en_first ''en-html'' = Inr None \<and>
   get_alert_text ex_alert_no_text ''en-html'' = Inl UnboundLocalError \<and>
   map (alerts \<circ> snd) (m_stations (fst (update (ex_alert_env ex_alert_en_first) ex_alert_mtapi)))
     = [[]] \<and>
   update (ex_alert_env ex_alert_no_text) ex_alert_mtapi =
     (ex_alert_mtapi\<lparr>updates := 1\<rparr>, Some UnboundLocalError)"
  by (simp add: rebuild_defs alert_defs ex_alert_env_def ex_alert_mtapi_def ex_mtapi_def
      ex_alert_en_first_def ex_alert_no_text_def ex_json_def ex_index_def)

section \<open>Which alerts a station holds\<close>






lemma attach_all_Nil: "attach_all stops served [] [] = []"
  by simp


lemma rstrip_keeps:
  "s = [] \<or> last s \<notin> set cs \<Longrightarrow> rstrip cs s = s"
  by (cases s rule: rev_cases) (simp_all add: rstrip_def)

lemma rstrip_one_suffix:
  "c \<in> set cs \<Longrightarrow> s = [] \<or> last s \<notin> set cs \<Longrightarrow> rstrip cs (s @ [c]) = s"
  by (simp add: rstrip_def) (cases s rule: rev_cases, simp_all)

lemma first_match_stop_iff:
  "first_match stops served infs = Some ''stop'' \<longleftrightarrow>
     (\<exists>k<length infs. names_stop_of (infs ! k) stops \<and>
        (\<forall>j<k. \<not> names_stop_of (infs ! j) stops \<and> \<not> route_applies (infs ! j) served))"
proof
  assume "first_match stops served infs = Some ''stop''"
  then obtain i where f: "find (\<lambda>i. names_stop_of i stops \<or> route_applies i served) infs = Some i"
    and n: "names_stop_of i stops"
    by (auto simp: first_match_def split: option.splits if_splits)
  from f obtain k where "k < length infs" "i = infs ! k"
    "\<forall>j<k. \<not> (names_stop_of (infs ! j) stops \<or> route_applies (infs ! j) served)"
    unfolding find_Some_iff by blast
  with n show "\<exists>k<length infs. names_stop_of (infs ! k) stops \<and>
        (\<forall>j<k. \<not> names_stop_of (infs ! j) stops \<and> \<not> route_applies (infs ! j) served)"
    by blast
next
  assume "\<exists>k<length infs. names_stop_of (infs ! k) stops \<and>
        (\<forall>j<k. \<not> names_stop_of (infs ! j) stops \<and> \<not> route_applies (infs ! j) served)"
  then obtain k where k: "k < length infs" "names_stop_of (infs ! k) stops"
    "\<forall>j<k. \<not> names_stop_of (infs ! j) stops \<and> \<not> route_applies (infs ! j) served"
    by blast
  then have "find (\<lambda>i. names_stop_of i stops \<or> route_applies i served) infs = Some (infs ! k)"
    unfolding find_Some_iff by blast
  with k(2) show "first_match stops served infs = Some ''stop''"
    by (simp add: first_match_def)
qed









section \<open>Stations by route\<close>

lemma to_upper_idem: "to_upper (to_upper c) = to_upper c"
  by (simp add: to_upper_def)

lemma upper_idem: "upper (upper r) = upper r"
  by (simp add: upper_def to_upper_idem)

lemma comprehend_list_all2:
  assumes "list_all2 (\<lambda>x y. f x = Inr y) xs ys"
  shows "comprehend f xs = Inr ys"
  using assms by (induction rule: list_all2_induct) auto

lemma comprehend_map:
  assumes "list_all2 (\<lambda>x y. f x = Inr y) xs ys"
  shows "comprehend (\<lambda>x. case f x of Inl e \<Rightarrow> Inl e | Inr y \<Rightarrow> Inr (g y)) xs = Inr (map g ys)"
  using assms by (induction rule: list_all2_induct) auto

lemma serialize_name:
  "json s ''name'' = Some (JStr n) \<Longrightarrow> serialize s ''name'' = Some (Static (JStr n))"
  by (simp add: serialize_def map_add_def)

lemma sort_key_short: "length xs < 2 \<Longrightarrow> sort_key f xs = xs"
  by (cases xs rule: remdups_adj.cases) simp_all

lemma sort_by_name_strings:
  assumes "list_all (\<lambda>s. \<exists>n. json s ''name'' = Some (JStr n)) ss"
  shows "sort_by_name (map serialize ss) = Inr (sort_key name_of (map serialize ss))"
proof -
  have "list_all2 (\<lambda>x v. (case x ''name'' of None \<Rightarrow> Inl KeyError | Some v \<Rightarrow> Inr v) = Inr v)
          (map serialize ss) (map (\<lambda>s. Static (the (json s ''name''))) ss)"
    using assms by (induction ss) (auto simp: serialize_name)
  then have c: "comprehend (\<lambda>x. case x ''name'' of None \<Rightarrow> Inl KeyError | Some v \<Rightarrow> Inr v)
          (map serialize ss) = Inr (map (\<lambda>s. Static (the (json s ''name''))) ss)"
    by (rule comprehend_list_all2)
  have a: "list_all (\<lambda>v. case v of Static (JStr n) \<Rightarrow> True | _ \<Rightarrow> False)
          (map (\<lambda>s. Static (the (json s ''name''))) ss)"
    using assms by (induction ss) auto
  show ?thesis
    by (simp add: sort_by_name_def c a sort_key_short)
qed

lemma get_by_route_known:
  assumes "refresh w m = (m1, None)" and "map_of (m_routes m1) (upper r) = Some stops"
    and "list_all2 (\<lambda>k s. station_of_stop m1 k = Inr s) stops ss"
    and "list_all (\<lambda>s. \<exists>n. json s ''name'' = Some (JStr n)) ss"
  shows "get_by_route w r m = (m1, Inr (sort_key name_of (map serialize ss)))"
proof -
  have sos: "station_of_stop (m1\<lparr>m_routes := m_routes m1\<rparr>) = station_of_stop m1"
    by (intro ext) (simp add: station_of_stop_def)
  have c: "comprehend (\<lambda>k. case station_of_stop m1 k of Inl e \<Rightarrow> Inl e
                           | Inr s \<Rightarrow> Inr (serialize s)) stops = Inr (map serialize ss)"
    by (rule comprehend_map [OF assms(3)])
  show ?thesis
    using assms(1,2)
    by (simp add: get_by_route_def read_by_route_def routes_getitem_def sos c
        sort_by_name_strings [OF assms(4)])
qed

lemma ex_station_of_stop:
  "list_all2 (\<lambda>k s. station_of_stop ex_published k = Inr s) [''A2'', ''A1''] [ex_station, ex_station]"
  by (simp add: station_of_stop_def ex_published_def ex_mtapi_def ex_index_def)

lemma ex_names: "list_all (\<lambda>s. \<exists>n. json s ''name'' = Some (JStr n)) [ex_station, ex_station]"
  by (simp add: ex_station_def ex_json_def)

lemma ex_route_7: "map_of (m_routes ex_published) (upper ''7'') = Some [''A2'', ''A1'']"
  by (simp add: ex_published_def upper_def to_upper_def)

lemma ex_sorted_twice:
  "sort_key name_of (map serialize [ex_station, ex_station]) = [serialize ex_station, serialize ex_station]"
  by simp

text \<open>
  C5, as the code has it. For a route id that is in the route index once it is in upper
  case (lower and upper case give the same answer), \<^verbatim>\<open>get_by_route\<close> returns the
  serialized owning station of every stop id of the route, one record per stop id,
  sorted ascending by station name.
\<close>

theorem get_by_route_one_record_per_stop:
  assumes "refresh w m = (m1, None)" and "map_of (m_routes m1) (upper r) = Some stops"
    and "list_all2 (\<lambda>k s. station_of_stop m1 k = Inr s) stops ss"
    and "list_all (\<lambda>s. \<exists>n. json s ''name'' = Some (JStr n)) ss"
  shows "get_by_route w r m = (m1, Inr (sort_key name_of (map serialize ss))) \<and>
         get_by_route w (upper r) m = get_by_route w r m \<and>
         sorted (map name_of (sort_key name_of (map serialize ss))) \<and>
         length (sort_key name_of (map serialize ss)) = length stops"
proof -
  have a: "get_by_route w r m = (m1, Inr (sort_key name_of (map serialize ss)))"
    by (rule get_by_route_known [OF assms])
  have b: "get_by_route w (upper r) m = get_by_route w r m"
    by (simp add: get_by_route_def upper_idem)
  have l: "length ss = length stops"
    using assms(3) by (simp add: list_all2_lengthD)
  from a b l show ?thesis
    by (simp add: sorted_sort_key)
qed

theorem get_by_route_one_record_per_stop_witness:
  "refresh ex_world ex_published = (ex_published, None) \<and>
   map_of (m_routes ex_published) (upper ''7'') = Some [''A2'', ''A1''] \<and>
   list_all2 (\<lambda>k s. station_of_stop ex_published k = Inr s) [''A2'', ''A1''] [ex_station, ex_station] \<and>
   list_all (\<lambda>s. \<exists>n. json s ''name'' = Some (JStr n)) [ex_station, ex_station] \<and>
   get_by_route ex_world ''7'' ex_published =
     (ex_published, Inr [serialize ex_station, serialize ex_station])"
proof -
  note t = get_by_route_one_record_per_stop [OF ex_refresh ex_route_7 ex_station_of_stop ex_names]
  from t have "get_by_route ex_world ''7'' ex_published =
     (ex_published, Inr [serialize ex_station, serialize ex_station])"
    by (simp only: ex_sorted_twice)
  with ex_refresh ex_route_7 ex_station_of_stop ex_names show ?thesis by blast
qed

text \<open>
  C5 as stated fails: route \<^verbatim>\<open>7\<close> serves the stops \<^verbatim>\<open>A1\<close> and \<^verbatim>\<open>A2\<close> of station
  \<^verbatim>\<open>A\<close>, and the result holds the record of \<^verbatim>\<open>A\<close> twice.
\<close>

theorem get_by_route_repeats_station:
  "get_by_route ex_world ''7'' ex_published =
     (ex_published, Inr [serialize ex_station, serialize ex_station]) \<and>
   m_stops_to_stations ex_published ''A1'' = Some ''A'' \<and>
   m_stops_to_stations ex_published ''A2'' = Some ''A'' \<and>
   \<not> distinct [serialize ex_station, serialize ex_station]"
proof -
  have "get_by_route ex_world ''7'' ex_published =
     (ex_published, Inr [serialize ex_station, serialize ex_station])"
    using get_by_route_known [OF ex_refresh ex_route_7 ex_station_of_stop ex_names]
    by (simp only: ex_sorted_twice)
  then show ?thesis
    by (simp add: ex_published_def ex_mtapi_def ex_index_def)
qed

section \<open>Serialization\<close>

text \<open>
  C10. \<^verbatim>\<open>serialize\<close> builds the record from the five derived fields and then merges the
  catalog record over it. For every key: when the catalog record has the key, the
  serialized record holds the catalog's value unchanged, also when the key is one of
  \<^verbatim>\<open>service_alerts\<close>, \<^verbatim>\<open>N\<close>, \<^verbatim>\<open>S\<close>, \<^verbatim>\<open>routes\<close>, \<^verbatim>\<open>last_update\<close> (the catalog value
  overwrites the derived one); otherwise it holds the derived value, and nothing else.
\<close>

theorem serialize_static_over_derived:
  "serialize s k =
     (case json s k of
        Some v \<Rightarrow> Some (Static v)
      | None \<Rightarrow>
          if k = ''service_alerts'' then Some (Alerts (alerts s))
          else if k = ''N'' then Some (Trains (trains_N s))
          else if k = ''S'' then Some (Trains (trains_S s))
          else if k = ''routes'' then Some (Routes (routes s))
          else if k = ''last_update'' then Some (LastUpdate (last_update s))
          else None)"
  by (simp add: serialize_def derived_def map_add_def split: option.split)

end
